theory Spec2Isabelle
  imports Main "HOL-Library.Sublist" "HOL-Library.Code_Target_Nat"
begin

section \<open>Settings data model (settings.ts)\<close>

text \<open>
  JavaScript strings are modelled as \<open>string\<close> (lists of \<open>char\<close>); a \<open>char\<close> stands for
  a UTF-16 code unit below 256. The string-literal union type \<open>ParaFolderField\<close> is a
  datatype; its constructors are capitalised because the record below owns the
  lower-case names as field selectors.
\<close>

datatype ParaFolderField = ProjectsPath | AreasPath | ResourcesPath | ArchivePath

record ParaManagerSettings =
  projectsPath :: string
  areasPath :: string
  resourcesPath :: string
  archivePath :: string
  focusAfterArchive :: bool
  confirmBeforeArchive :: bool

definition DEFAULT_SETTINGS :: ParaManagerSettings where
  "DEFAULT_SETTINGS =
     \<lparr> projectsPath = ''Projects'', areasPath = ''Areas'',
       resourcesPath = ''Resources'', archivePath = ''Archive'',
       focusAfterArchive = True, confirmBeforeArchive = False \<rparr>"

fun FOLDER_NAMES :: "ParaFolderField \<Rightarrow> string" where
  "FOLDER_NAMES ProjectsPath = ''Projects''"
| "FOLDER_NAMES AreasPath = ''Areas''"
| "FOLDER_NAMES ResourcesPath = ''Resources''"
| "FOLDER_NAMES ArchivePath = ''Archive''"

fun FOLDER_DEFAULTS :: "ParaFolderField \<Rightarrow> string" where
  "FOLDER_DEFAULTS ProjectsPath = ''Projects''"
| "FOLDER_DEFAULTS AreasPath = ''Areas''"
| "FOLDER_DEFAULTS ResourcesPath = ''Resources''"
| "FOLDER_DEFAULTS ArchivePath = ''Archive''"

text \<open>The indexed read \<open>settings[field]\<close> and the indexed write \<open>settings[field] = v\<close>.\<close>

fun getPath :: "ParaManagerSettings \<Rightarrow> ParaFolderField \<Rightarrow> string" where
  "getPath s ProjectsPath = projectsPath s"
| "getPath s AreasPath = areasPath s"
| "getPath s ResourcesPath = resourcesPath s"
| "getPath s ArchivePath = archivePath s"

fun setPath :: "ParaManagerSettings \<Rightarrow> ParaFolderField \<Rightarrow> string \<Rightarrow> ParaManagerSettings" where
  "setPath s ProjectsPath v = s\<lparr>projectsPath := v\<rparr>"
| "setPath s AreasPath v = s\<lparr>areasPath := v\<rparr>"
| "setPath s ResourcesPath v = s\<lparr>resourcesPath := v\<rparr>"
| "setPath s ArchivePath v = s\<lparr>archivePath := v\<rparr>"

section \<open>Path nesting (utils.ts)\<close>

text \<open>
  \<open>String.prototype.split\<close> with a one-character separator: the pieces between the
  separators, empty pieces kept, so that the empty string splits into one empty piece.
\<close>

fun splitOn :: "char \<Rightarrow> string \<Rightarrow> string list" where
  "splitOn c [] = [[]]"
| "splitOn c (x # xs) =
     (if x = c then [] # splitOn c xs
      else (let r = splitOn c xs in (x # hd r) # tl r))"

fun isStrictSegmentPrefix :: "string list \<Rightarrow> string list \<Rightarrow> bool" where
  "isStrictSegmentPrefix [] [] = False"
| "isStrictSegmentPrefix [] (y # ys) = True"
| "isStrictSegmentPrefix (x # xs) [] = False"
| "isStrictSegmentPrefix (x # xs) (y # ys) = (x = y \<and> isStrictSegmentPrefix xs ys)"

text \<open>
  Modelled from the spec: \<open>isNestedPath\<close> is imported from \<open>./utils\<close>, a file of this
  repository that is not among the sources. The spec says: path A nests with path B if
  and only if A and B, when split on \<open>/\<close>, are such that one sequence of segments is a
  strict prefix of the other sequence of segments.
\<close>

definition isNestedPath :: "string \<Rightarrow> string \<Rightarrow> bool" where
  "isNestedPath path1 path2 =
     (let segs1 = splitOn CHR ''/'' path1; segs2 = splitOn CHR ''/'' path2
      in isStrictSegmentPrefix segs1 segs2 \<or> isStrictSegmentPrefix segs2 segs1)"

section \<open>validateParaFolderPath (settings.ts)\<close>

definition allFields :: "ParaFolderField list" where
  "allFields = [ProjectsPath, AreasPath, ResourcesPath, ArchivePath]"

definition otherFields :: "ParaFolderField \<Rightarrow> ParaFolderField list" where
  "otherFields field = filter (\<lambda>f. f \<noteq> field) allFields"

text \<open>
  The \<open>for ... of\<close> loop with its two early returns. The result is the source's
  \<open>string | null\<close>: \<open>None\<close> is \<open>null\<close>, \<open>Some m\<close> the error message.
\<close>

fun validateLoop ::
  "string \<Rightarrow> ParaFolderField \<Rightarrow> ParaManagerSettings \<Rightarrow> ParaFolderField list \<Rightarrow> string option"
where
  "validateLoop newPath field settings [] = None"
| "validateLoop newPath field settings (otherField # rest) =
     (let otherPath = getPath settings otherField;
          otherName = FOLDER_NAMES otherField;
          thisName = FOLDER_NAMES field
      in if newPath = otherPath
         then Some (thisName @ '' folder cannot be the same as '' @ otherName @ '' folder'')
         else if isNestedPath newPath otherPath
         then Some (thisName @ '' folder cannot be nested with '' @ otherName @ '' folder'')
         else validateLoop newPath field settings rest)"

definition validateParaFolderPath ::
  "string \<Rightarrow> ParaFolderField \<Rightarrow> ParaManagerSettings \<Rightarrow> string option"
where
  "validateParaFolderPath newPath field settings =
     validateLoop newPath field settings (otherFields field)"

section \<open>The blur handler of setupFolderPathInput (settings.ts)\<close>

text \<open>
  \<open>String.prototype.trim\<close> removes leading and trailing WhiteSpace and LineTerminator
  code units; below 256 these are TAB, LF, VT, FF, CR, SP and NBSP.
\<close>

definition isWhiteSpace :: "char \<Rightarrow> bool" where
  "isWhiteSpace c =
     (c = CHR 0x09 \<or> c = CHR 0x0A \<or> c = CHR 0x0B \<or> c = CHR 0x0C \<or> c = CHR 0x0D \<or>
      c = CHR 0x20 \<or> c = CHR 0xA0)"

definition trim :: "string \<Rightarrow> string" where
  "trim s = rev (dropWhile isWhiteSpace (rev (dropWhile isWhiteSpace s)))"

text \<open>\<open>.replace(/\/+$/, "")\<close>: the maximal run of \<open>/\<close> at the end of the string is removed.\<close>

definition stripTrailingSlashes :: "string \<Rightarrow> string" where
  "stripTrailingSlashes s = rev (dropWhile (\<lambda>c. c = CHR ''/'') (rev s))"

text \<open>
  \<open>value.trim().replace(/\/+$/, "") || FOLDER_DEFAULTS[field]\<close>; the empty string is the
  only falsy string.
\<close>

definition normalizeInput :: "ParaFolderField \<Rightarrow> string \<Rightarrow> string" where
  "normalizeInput field v =
     (let stripped = stripTrailingSlashes (trim v)
      in if stripped = [] then FOLDER_DEFAULTS field else stripped)"

text \<open>\<open>if (error)\<close> on a \<open>string | null\<close>: \<open>null\<close> and the empty string are falsy.\<close>

fun truthy :: "string option \<Rightarrow> bool" where
  "truthy None = False"
| "truthy (Some m) = (m \<noteq> [])"

text \<open>
  What one blur event leaves behind: the settings record of the plugin, the notice shown
  (if any), the text of the input field, and whether \<open>saveSettings\<close> was called.
  \<open>saveSettings\<close> belongs to \<open>./main\<close>; it writes the record to the host's storage and is
  represented by the flag only.
\<close>

record BlurOutcome =
  settingsAfter :: ParaManagerSettings
  notice :: "string option"
  inputValue :: string
  saved :: bool

definition onBlur :: "ParaFolderField \<Rightarrow> string \<Rightarrow> ParaManagerSettings \<Rightarrow> BlurOutcome" where
  "onBlur field v settings =
     (let normalized = normalizeInput field v;
          error = validateParaFolderPath normalized field settings
      in if truthy error
         then \<lparr> settingsAfter = settings, notice = error,
                inputValue = getPath settings field, saved = False \<rparr>
         else \<lparr> settingsAfter = setPath settings field normalized, notice = None,
                inputValue = v, saved = True \<rparr>)"

section \<open>Version bump of the release script (release.mjs, lines 11 to 51)\<close>

text \<open>
  \<open>process.argv[2] || 'patch'\<close>: \<open>None\<close> is a missing argument (\<open>undefined\<close>); like the
  empty string it is falsy and gives the default.
\<close>

definition BUMP_TYPE :: "string option \<Rightarrow> string" where
  "BUMP_TYPE arg = (case arg of None \<Rightarrow> ''patch'' | Some a \<Rightarrow> if a = [] then ''patch'' else a)"

definition MAX_SAFE_INTEGER :: nat where
  "MAX_SAFE_INTEGER = 2 ^ 53 - 1"

definition isDigit :: "char \<Rightarrow> bool" where
  "isDigit c = (48 \<le> (of_char c :: nat) \<and> (of_char c :: nat) \<le> 57)"

definition digitValue :: "char \<Rightarrow> nat" where
  "digitValue c = of_char c - 48"

definition decimalValue :: "string \<Rightarrow> nat" where
  "decimalValue s = foldl (\<lambda>acc c. acc * 10 + digitValue c) 0 s"

text \<open>
  JavaScript numbers are doubles. \<open>roundToDouble n\<close> is the double nearest to the natural
  number \<open>n\<close>: \<open>n\<close> itself below \<open>2^53\<close>, and above it \<open>n\<close> rounded to 53 significant
  bits, a tie going to the even significand (overflow to \<open>Infinity\<close>, at \<open>2^1024\<close>, is
  out of reach of the values used here).
\<close>

fun bitLength :: "nat \<Rightarrow> nat" where
  "bitLength n = (if n = 0 then 0 else Suc (bitLength (n div 2)))"

declare bitLength.simps [simp del]

definition roundToDouble :: "nat \<Rightarrow> nat" where
  "roundToDouble n =
     (if n < 2 ^ 53 then n
      else (let e = bitLength n - 53; q = n div 2 ^ e; r = n mod 2 ^ e; half = 2 ^ (e - 1)
            in (if r < half \<or> (r = half \<and> even q) then q else q + 1) * 2 ^ e))"

text \<open>
  The values the script computes with: \<open>undefined\<close> (a missing array element), \<open>NaN\<close>,
  and \<open>Num n\<close>, the double whose value is the natural number \<open>n\<close>.
\<close>

datatype JSValue = Undefined | NaN | Num nat

text \<open>
  The grammar \<open>StrNumericLiteral\<close> of the language standard, which decides whether
  \<open>Number(s)\<close> is a number or \<open>NaN\<close>: an optional sign before \<open>Infinity\<close> or before
  decimal digits with an optional fraction and an optional exponent, or an unsigned
  binary, octal or hexadecimal literal.
\<close>

definition isDecimalDigits :: "string \<Rightarrow> bool" where
  "isDecimalDigits s = (s \<noteq> [] \<and> list_all isDigit s)"

definition isHexDigit :: "char \<Rightarrow> bool" where
  "isHexDigit c = (isDigit c \<or> c \<in> set ''abcdefABCDEF'')"

definition isExponentPart :: "string \<Rightarrow> bool" where
  "isExponentPart s =
     (case s of
        [] \<Rightarrow> False
      | e # rest \<Rightarrow>
          (e = CHR ''e'' \<or> e = CHR ''E'') \<and>
          (case rest of
             [] \<Rightarrow> False
           | sign # digits \<Rightarrow>
               if sign = CHR ''+'' \<or> sign = CHR ''-'' then isDecimalDigits digits
               else isDecimalDigits rest))"

definition isStrUnsignedDecimalLiteral :: "string \<Rightarrow> bool" where
  "isStrUnsignedDecimalLiteral s =
     (s = ''Infinity'' \<or>
      (let intPart = takeWhile isDigit s; rest = dropWhile isDigit s
       in case rest of
            [] \<Rightarrow> intPart \<noteq> []
          | c # afterDot \<Rightarrow>
              if c = CHR ''.'' then
                (let fracPart = takeWhile isDigit afterDot; tail = dropWhile isDigit afterDot
                 in (intPart \<noteq> [] \<or> fracPart \<noteq> []) \<and> (tail = [] \<or> isExponentPart tail))
              else intPart \<noteq> [] \<and> isExponentPart rest))"

definition isNonDecimalIntegerLiteral :: "string \<Rightarrow> bool" where
  "isNonDecimalIntegerLiteral s =
     (case s of
        zero # radix # digits \<Rightarrow>
          zero = CHR ''0'' \<and> digits \<noteq> [] \<and>
          ((radix \<in> set ''bB'' \<and> list_all (\<lambda>c. c \<in> set ''01'') digits) \<or>
           (radix \<in> set ''oO'' \<and> list_all (\<lambda>c. c \<in> set ''01234567'') digits) \<or>
           (radix \<in> set ''xX'' \<and> list_all isHexDigit digits))
      | _ \<Rightarrow> False)"

definition isStrNumericLiteral :: "string \<Rightarrow> bool" where
  "isStrNumericLiteral s =
     (isNonDecimalIntegerLiteral s \<or>
      (case s of
         [] \<Rightarrow> False
       | sign # rest \<Rightarrow>
           if sign = CHR ''+'' \<or> sign = CHR ''-'' then isStrUnsignedDecimalLiteral rest
           else isStrUnsignedDecimalLiteral s))"

text \<open>
  \<open>Number(s)\<close>: white space around the text is ignored; the empty text is \<open>0\<close>; a run
  of decimal digits is the double nearest to its value; a text that is no numeric
  literal is \<open>NaN\<close>. The result \<open>None\<close> means that the model gives no answer: for the
  other numeric literals (a sign, a fraction, an exponent, another radix, \<open>Infinity\<close>),
  whose values are not natural numbers in general, and for digits with a value above
  \<open>2^54\<close>, where the decimal text of a double is no longer the numeral of its value.
\<close>

definition Number_js :: "string \<Rightarrow> JSValue option" where
  "Number_js s =
     (let t = trim s
      in if t = [] then Some (Num 0)
         else if list_all isDigit t then
           (if decimalValue t \<le> 2 ^ 54 then Some (Num (roundToDouble (decimalValue t))) else None)
         else if isStrNumericLiteral t then None
         else Some NaN)"

text \<open>\<open>x + 1\<close> on a value: \<open>undefined\<close> converts to \<open>NaN\<close>, and the sum is rounded.\<close>

fun addOne :: "JSValue \<Rightarrow> JSValue" where
  "addOne Undefined = NaN"
| "addOne NaN = NaN"
| "addOne (Num n) = Num (roundToDouble (n + 1))"

text \<open>The decimal numeral of a natural number.\<close>

fun toDecimal :: "nat \<Rightarrow> string" where
  "toDecimal n =
     (if n < 10 then [char_of (48 + n)]
      else toDecimal (n div 10) @ [char_of (48 + n mod 10)])"

declare toDecimal.simps [simp del]

text \<open>
  The text a template literal prints for a value. For a double with a natural value up
  to \<open>2^54\<close> it is the decimal numeral of that value; \<open>Number_js\<close> and \<open>addOne\<close> yield no
  larger one.
\<close>

fun toString :: "JSValue \<Rightarrow> string" where
  "toString Undefined = ''undefined''"
| "toString NaN = ''NaN''"
| "toString (Num n) = toDecimal n"

text \<open>
  \<open>const [major, minor, patch] = manifest.version.split('.').map(Number)\<close>: the i-th
  component, \<open>undefined\<close> when the version has fewer parts; \<open>None\<close> where \<open>Number_js\<close>
  gives no answer.
\<close>

definition component :: "string \<Rightarrow> nat \<Rightarrow> JSValue option" where
  "component version i =
     (let parts = splitOn CHR ''.'' version
      in if i < length parts then Number_js (parts ! i) else Some Undefined)"

datatype Event = ConsoleError string | ConsoleLog string | ReadFile string | WriteFile string

datatype Outcome = Exited nat | NewVersion string | NoVersion | Unmodelled

text \<open>
  The \<open>switch\<close> on the bump type. Only the template literal of the selected case is
  evaluated, so only the components that case prints are needed. When no case matches,
  \<open>newVersion\<close> stays unassigned (\<open>NoVersion\<close>); the script never gets there.
\<close>

definition newVersion :: "string \<Rightarrow> string \<Rightarrow> Outcome" where
  "newVersion bump version =
     (let major = component version 0; minor = component version 1; patch = component version 2
      in if bump = ''major'' then
           (case major of
              Some a \<Rightarrow> NewVersion (toString (addOne a) @ ''.0.0'')
            | None \<Rightarrow> Unmodelled)
         else if bump = ''minor'' then
           (case (major, minor) of
              (Some a, Some b) \<Rightarrow> NewVersion (toString a @ ''.'' @ toString (addOne b) @ ''.0'')
            | _ \<Rightarrow> Unmodelled)
         else if bump = ''patch'' then
           (case (major, minor, patch) of
              (Some a, Some b, Some c) \<Rightarrow>
                NewVersion (toString a @ ''.'' @ toString b @ ''.'' @ toString (addOne c))
            | _ \<Rightarrow> Unmodelled)
         else NoVersion)"

text \<open>
  The script up to the computation of the new version: the events it has caused so far
  and how it goes on. \<open>arg\<close> is \<open>process.argv[2]\<close>, \<open>version\<close> the \<open>version\<close> field of
  \<open>manifest.json\<close> on disk.
\<close>

definition release :: "string option \<Rightarrow> string \<Rightarrow> Event list \<times> Outcome" where
  "release arg version =
     (let bump = BUMP_TYPE arg
      in if bump \<notin> set [''patch'', ''minor'', ''major'']
         then ([ConsoleError ''Usage: node scripts/release.mjs [patch|minor|major]''], Exited 1)
         else ([ReadFile ''manifest.json'', ConsoleLog (''Current version: '' @ version)],
               newVersion bump version))"

fun isFileEvent :: "Event \<Rightarrow> bool" where
  "isFileEvent (ReadFile f) = True"
| "isFileEvent (WriteFile f) = True"
| "isFileEvent e = False"

section \<open>The spec's vocabulary\<close>

text \<open>
  The spec speaks of a result \<open>Valid\<close> or \<open>Conflict{kind, thisRole, otherRole}\<close>; the source
  returns \<open>null\<close> or a message. \<open>conflictMessage\<close> is the message that stands for a
  conflict, and \<open>renderResult\<close> maps the spec's result to the source's return value.
\<close>

datatype ConflictKind = SamePath | NestedPath

datatype ValidationResult = Valid | Conflict ConflictKind ParaFolderField ParaFolderField

fun conflictMessage :: "ConflictKind \<Rightarrow> ParaFolderField \<Rightarrow> ParaFolderField \<Rightarrow> string" where
  "conflictMessage SamePath thisRole otherRole =
     FOLDER_NAMES thisRole @ '' folder cannot be the same as '' @ FOLDER_NAMES otherRole @ '' folder''"
| "conflictMessage NestedPath thisRole otherRole =
     FOLDER_NAMES thisRole @ '' folder cannot be nested with '' @ FOLDER_NAMES otherRole @ '' folder''"

fun renderResult :: "ValidationResult \<Rightarrow> string option" where
  "renderResult Valid = None"
| "renderResult (Conflict kind thisRole otherRole) = Some (conflictMessage kind thisRole otherRole)"

text \<open>The PathAssignment invariant: no two roles equal, no two roles nested.\<close>

definition pathInvariant :: "ParaManagerSettings \<Rightarrow> bool" where
  "pathInvariant s =
     (\<forall>r1 \<in> set allFields. \<forall>r2 \<in> set allFields.
        r1 \<noteq> r2 \<longrightarrow> getPath s r1 \<noteq> getPath s r2 \<and> \<not> isNestedPath (getPath s r1) (getPath s r2))"

section \<open>Helper lemmas\<close>

lemma set_allFields: "set allFields = UNIV"
proof -
  have "r \<in> set allFields" for r
    by (cases r) (simp_all add: allFields_def)
  then show ?thesis by blast
qed

lemma set_otherFields: "set (otherFields field) = {r. r \<noteq> field}"
  by (auto simp: otherFields_def set_allFields)

lemma otherFields_cases:
  "otherFields ProjectsPath = [AreasPath, ResourcesPath, ArchivePath]"
  "otherFields AreasPath = [ProjectsPath, ResourcesPath, ArchivePath]"
  "otherFields ResourcesPath = [ProjectsPath, AreasPath, ArchivePath]"
  "otherFields ArchivePath = [ProjectsPath, AreasPath, ResourcesPath]"
  by (simp_all add: otherFields_def allFields_def)

lemma validateLoop_find:
  "validateLoop P R s rs =
     (case find (\<lambda>r. P = getPath s r \<or> isNestedPath P (getPath s r)) rs of
        None \<Rightarrow> None
      | Some r \<Rightarrow> Some (conflictMessage (if P = getPath s r then SamePath else NestedPath) R r))"
  by (induction rs) (simp_all add: Let_def)

lemma validateLoop_None:
  "validateLoop P R s rs = None \<longleftrightarrow>
     (\<forall>r \<in> set rs. P \<noteq> getPath s r \<and> \<not> isNestedPath P (getPath s r))"
  by (induction rs) (auto simp: Let_def)

lemma getPath_setPath_other: "r \<noteq> R \<Longrightarrow> getPath (setPath s R v) r = getPath s r"
  by (cases R; cases r) simp_all

lemma getPath_setPath_same: "getPath (setPath s R v) R = v"
  by (cases R) simp_all

lemma validateLoop_cong_paths:
  "(\<And>r. r \<in> set rs \<Longrightarrow> getPath s r = getPath s' r) \<Longrightarrow>
   validateLoop P R s rs = validateLoop P R s' rs"
  by (induction rs) (simp_all add: Let_def)

lemma isStrictSegmentPrefix_iff: "isStrictSegmentPrefix xs ys \<longleftrightarrow> strict_prefix xs ys"
  by (induction xs ys rule: isStrictSegmentPrefix.induct) auto

lemma isNestedPath_sym: "isNestedPath p q = isNestedPath q p"
  by (auto simp: isNestedPath_def Let_def)

lemma isNestedPath_irrefl: "\<not> isNestedPath p p"
  by (simp add: isNestedPath_def Let_def isStrictSegmentPrefix_iff)

lemma isNestedPath_segments_iff:
  "isNestedPath p q \<longleftrightarrow>
     strict_prefix (splitOn CHR ''/'' p) (splitOn CHR ''/'' q) \<or>
     strict_prefix (splitOn CHR ''/'' q) (splitOn CHR ''/'' p)"
  by (simp add: isNestedPath_def Let_def isStrictSegmentPrefix_iff)

lemma FOLDER_NAMES_inject: "FOLDER_NAMES a = FOLDER_NAMES b \<Longrightarrow> a = b"
  by (cases a; cases b) simp_all

lemma FOLDER_NAMES_no_space: "CHR '' '' \<notin> set (FOLDER_NAMES a)"
  by (cases a) simp_all

lemma append_space_inject:
  assumes "CHR '' '' \<notin> set a" "CHR '' '' \<notin> set b"
    and "a @ CHR '' '' # u = b @ CHR '' '' # v"
  shows "a = b \<and> u = v"
  using assms
proof (induction a arbitrary: b)
  case Nil
  then show ?case by (cases b) auto
next
  case (Cons x a)
  then show ?case by (cases b) auto
qed

lemma conflictMessage_inject:
  assumes "conflictMessage k R r = conflictMessage k' R' r'"
  shows "k = k' \<and> R = R' \<and> r = r'"
proof -
  let ?same = "''folder cannot be the same as ''"
  let ?nest = "''folder cannot be nested with ''"
  let ?mid = "\<lambda>k. case k of SamePath \<Rightarrow> ?same | NestedPath \<Rightarrow> ?nest"
  have shape: "conflictMessage k R r = FOLDER_NAMES R @ CHR '' '' # (?mid k @ FOLDER_NAMES r @ '' folder'')"
    for k R r
    by (cases k) simp_all
  from assms have eq:
    "FOLDER_NAMES R @ CHR '' '' # (?mid k @ FOLDER_NAMES r @ '' folder'') =
     FOLDER_NAMES R' @ CHR '' '' # (?mid k' @ FOLDER_NAMES r' @ '' folder'')"
    by (simp only: shape)
  from append_space_inject [OF FOLDER_NAMES_no_space FOLDER_NAMES_no_space eq]
  have names: "FOLDER_NAMES R = FOLDER_NAMES R'"
    and rest: "?mid k @ FOLDER_NAMES r @ '' folder'' = ?mid k' @ FOLDER_NAMES r' @ '' folder''"
    by simp_all
  from names have "R = R'" by (rule FOLDER_NAMES_inject)
  moreover from rest have "k = k'"
    by (cases k; cases k') simp_all
  moreover from rest \<open>k = k'\<close> have "FOLDER_NAMES r = FOLDER_NAMES r'"
    by (cases k) simp_all
  then have "r = r'" by (rule FOLDER_NAMES_inject)
  ultimately show ?thesis by simp
qed

lemma conflictMessage_nonempty: "conflictMessage k R r \<noteq> []"
  by (cases k; cases R) simp_all

lemma find_unique:
  "other \<in> set rs \<Longrightarrow> Q other \<Longrightarrow> (\<And>r. r \<in> set rs \<Longrightarrow> r \<noteq> other \<Longrightarrow> \<not> Q r) \<Longrightarrow>
   find Q rs = Some other"
  by (induction rs) auto

lemma validate_find:
  "validateParaFolderPath P R A =
     (case find (\<lambda>r. P = getPath A r \<or> isNestedPath P (getPath A r)) (otherFields R) of
        None \<Rightarrow> None
      | Some r \<Rightarrow> Some (conflictMessage (if P = getPath A r then SamePath else NestedPath) R r))"
  by (simp add: validateParaFolderPath_def validateLoop_find)

lemma validate_None_iff:
  "validateParaFolderPath P R A = None \<longleftrightarrow>
     (\<forall>r. r \<noteq> R \<longrightarrow> P \<noteq> getPath A r \<and> \<not> isNestedPath P (getPath A r))"
  by (simp add: validateParaFolderPath_def validateLoop_None set_otherFields)

lemma validate_ignores_own:
  "validateParaFolderPath P R (setPath A R x) = validateParaFolderPath P R A"
  unfolding validateParaFolderPath_def
  by (rule validateLoop_cong_paths) (simp add: set_otherFields getPath_setPath_other)

lemma nested_examples:
  "\<not> isNestedPath ''Proj'' ''Projects''"
  "isNestedPath ''Projects/Archive'' ''Projects''"
  by (simp_all add: isNestedPath_def Let_def)

lemma rev_dropWhile_takeWhile:
  "xs = rev (dropWhile P (rev xs)) @ rev (takeWhile P (rev xs))"
  by (metis rev_append rev_rev_ident takeWhile_dropWhile_id)

lemma isDigit_char_of: "(d::nat) < 10 \<Longrightarrow> isDigit (char_of (48 + d))"
  by (simp add: isDigit_def)

lemma toDecimal_digits: "list_all isDigit (toDecimal n)"
proof (induction n rule: toDecimal.induct)
  case (1 n)
  show ?case
  proof (cases "n < 10")
    case True
    then show ?thesis
      by (subst toDecimal.simps) (simp add: isDigit_char_of)
  next
    case False
    with 1 have "list_all isDigit (toDecimal (n div 10))" by simp
    with False show ?thesis
      by (subst toDecimal.simps) (simp add: isDigit_char_of)
  qed
qed

lemma decimalValue_snoc: "decimalValue (s @ [c]) = decimalValue s * 10 + digitValue c"
  by (simp add: decimalValue_def)

lemma decimalValue_toDecimal: "decimalValue (toDecimal n) = n"
proof (induction n rule: toDecimal.induct)
  case (1 n)
  show ?case
  proof (cases "n < 10")
    case True
    then show ?thesis
      by (subst toDecimal.simps) (simp add: decimalValue_def digitValue_def)
  next
    case False
    with 1 have "decimalValue (toDecimal (n div 10)) = n div 10" by simp
    with False show ?thesis
      by (subst toDecimal.simps) (simp add: decimalValue_snoc digitValue_def)
  qed
qed

lemma toDecimal_no_dot: "CHR ''.'' \<notin> set (toDecimal n)"
proof
  assume "CHR ''.'' \<in> set (toDecimal n)"
  with toDecimal_digits [of n] have "isDigit CHR ''.''"
    by (simp add: list_all_iff)
  then show False by (simp add: isDigit_def)
qed

lemma splitOn_nonempty: "splitOn c xs \<noteq> []"
  by (induction xs) (simp_all add: Let_def)

lemma splitOn_no_sep: "c \<notin> set xs \<Longrightarrow> splitOn c xs = [xs]"
  by (induction xs) (auto simp: Let_def)

lemma splitOn_append_sep: "c \<notin> set xs \<Longrightarrow> splitOn c (xs @ c # ys) = xs # splitOn c ys"
  by (induction xs) (auto simp: Let_def)

lemma validate_message_nonempty: "validateParaFolderPath P R A = Some m \<Longrightarrow> m \<noteq> []"
  by (auto simp: validate_find conflictMessage_nonempty split: option.splits)

lemma truthy_validate: "truthy (validateParaFolderPath P R A) \<longleftrightarrow> validateParaFolderPath P R A \<noteq> None"
  by (cases "validateParaFolderPath P R A") (auto dest: validate_message_nonempty)

lemma settingsAfter_onBlur:
  "settingsAfter (onBlur R v s) =
     (if validateParaFolderPath (normalizeInput R v) R s = None
      then setPath s R (normalizeInput R v) else s)"
  by (simp add: onBlur_def Let_def truthy_validate)

lemma notice_onBlur: "notice (onBlur R v s) = validateParaFolderPath (normalizeInput R v) R s"
  by (simp add: onBlur_def Let_def truthy_validate)

lemma saved_onBlur: "saved (onBlur R v s) \<longleftrightarrow> validateParaFolderPath (normalizeInput R v) R s = None"
  by (simp add: onBlur_def Let_def truthy_validate)

lemma setPath_toggles:
  "focusAfterArchive (setPath s R x) = focusAfterArchive s"
  "confirmBeforeArchive (setPath s R x) = confirmBeforeArchive s"
  by (cases R; simp)+

lemma pathInvariant_iff:
  "pathInvariant s \<longleftrightarrow>
     (\<forall>r1 r2. r1 \<noteq> r2 \<longrightarrow> getPath s r1 \<noteq> getPath s r2 \<and> \<not> isNestedPath (getPath s r1) (getPath s r2))"
  by (simp add: pathInvariant_def set_allFields)


lemma pathInvariant_DEFAULT: "pathInvariant DEFAULT_SETTINGS"
  by (simp add: pathInvariant_def allFields_def DEFAULT_SETTINGS_def isNestedPath_def Let_def)

lemma trim_decomposition:
  "\<exists>pre post. v = pre @ trim v @ post \<and> list_all isWhiteSpace pre \<and> list_all isWhiteSpace post"
proof -
  let ?d = "dropWhile isWhiteSpace v"
  let ?pre = "takeWhile isWhiteSpace v"
  let ?post = "rev (takeWhile isWhiteSpace (rev ?d))"
  have d: "?d = trim v @ ?post"
    unfolding trim_def by (rule rev_dropWhile_takeWhile)
  have "v = ?pre @ ?d" by simp
  with d have "v = ?pre @ trim v @ ?post" by simp
  moreover have "list_all isWhiteSpace ?pre"
    by (simp add: list_all_iff) (meson set_takeWhileD)
  moreover have "list_all isWhiteSpace ?post"
    by (simp add: list_all_iff) (meson set_takeWhileD)
  ultimately show ?thesis by blast
qed

lemma trim_ends:
  assumes "trim v \<noteq> []"
  shows "\<not> isWhiteSpace (hd (trim v)) \<and> \<not> isWhiteSpace (last (trim v))"
proof -
  let ?d = "dropWhile isWhiteSpace v"
  let ?e = "dropWhile isWhiteSpace (rev ?d)"
  from assms have e: "?e \<noteq> []" by (simp add: trim_def)
  then have "\<not> isWhiteSpace (hd ?e)" by (rule hd_dropWhile)
  with e have last: "\<not> isWhiteSpace (last (trim v))"
    by (simp add: trim_def last_rev)
  have d: "?d \<noteq> []"
  proof
    assume "?d = []"
    then have "?e = []" by (simp only: rev.simps dropWhile.simps)
    with e show False by contradiction
  qed
  then have hd_d: "\<not> isWhiteSpace (hd ?d)" by (rule hd_dropWhile)
  have "?d = trim v @ rev (takeWhile isWhiteSpace (rev ?d))"
    unfolding trim_def by (rule rev_dropWhile_takeWhile)
  then have "hd ?d = hd (trim v @ rev (takeWhile isWhiteSpace (rev ?d)))" by (rule arg_cong)
  with assms have "hd ?d = hd (trim v)" by simp
  with hd_d last show ?thesis by simp
qed

lemma strip_decomposition:
  "\<exists>n. t = stripTrailingSlashes t @ replicate n CHR ''/''"
proof -
  let ?tk = "takeWhile (\<lambda>c. c = CHR ''/'') (rev t)"
  have t: "t = stripTrailingSlashes t @ rev ?tk"
    unfolding stripTrailingSlashes_def by (rule rev_dropWhile_takeWhile)
  have "\<forall>c \<in> set (rev ?tk). c = CHR ''/''"
    by simp (meson set_takeWhileD)
  then have "replicate (length (rev ?tk)) CHR ''/'' = rev ?tk"
    by (rule replicate_length_same)
  with t show ?thesis by metis
qed

lemma strip_last:
  assumes "stripTrailingSlashes t \<noteq> []"
  shows "last (stripTrailingSlashes t) \<noteq> CHR ''/''"
proof -
  let ?e = "dropWhile (\<lambda>c. c = CHR ''/'') (rev t)"
  from assms have e: "?e \<noteq> []" by (simp add: stripTrailingSlashes_def)
  then have "\<not> (hd ?e = CHR ''/'')" by (rule hd_dropWhile)
  with e show ?thesis by (simp add: stripTrailingSlashes_def last_rev)
qed

lemma strip_hd:
  assumes "stripTrailingSlashes t \<noteq> []"
  shows "hd (stripTrailingSlashes t) = hd t"
proof -
  obtain n where "t = stripTrailingSlashes t @ replicate n CHR ''/''"
    using strip_decomposition by blast
  then have "hd t = hd (stripTrailingSlashes t @ replicate n CHR ''/'')" by (rule arg_cong)
  with assms show ?thesis by simp
qed

lemma FOLDER_DEFAULTS_not_blank:
  "FOLDER_DEFAULTS R \<noteq> [] \<and> \<not> list_all isWhiteSpace (FOLDER_DEFAULTS R)"
  by (cases R) (simp_all add: isWhiteSpace_def)

lemma normalizeInput_not_blank:
  "normalizeInput R v \<noteq> [] \<and> \<not> list_all isWhiteSpace (normalizeInput R v)"
proof (cases "stripTrailingSlashes (trim v) = []")
  case True
  then show ?thesis
    using FOLDER_DEFAULTS_not_blank [of R] by (simp add: normalizeInput_def)
next
  case False
  then have tr: "trim v \<noteq> []" by (auto simp: stripTrailingSlashes_def)
  from False have "hd (stripTrailingSlashes (trim v)) = hd (trim v)" by (rule strip_hd)
  with trim_ends [OF tr] have "\<not> isWhiteSpace (hd (stripTrailingSlashes (trim v)))" by simp
  with False have "\<not> list_all isWhiteSpace (stripTrailingSlashes (trim v))"
    by (cases "stripTrailingSlashes (trim v)") simp_all
  with False show ?thesis by (simp add: normalizeInput_def)
qed

lemma renderResult_inj: "inj renderResult"
proof (rule injI)
  fix x y assume "renderResult x = renderResult y"
  then show "x = y"
    by (cases x; cases y) (auto dest: conflictMessage_inject)
qed

lemma trim_examples:
  "trim ''  Notes// '' = ''Notes//''"
  "trim [CHR 0x09, CHR '' '', CHR 0x0A] = []"
  by (simp_all add: trim_def isWhiteSpace_def)

lemma normalize_examples:
  "normalizeInput AreasPath ''  Notes// '' = ''Notes''"
  "normalizeInput AreasPath [CHR 0x09, CHR '' '', CHR 0x0A] = ''Areas''"
  "normalizeInput AreasPath '' Projects/ '' = ''Projects''"
  by (simp_all add: normalizeInput_def stripTrailingSlashes_def trim_def isWhiteSpace_def)

lemma digit_not_whitespace: "isDigit c \<Longrightarrow> \<not> isWhiteSpace c"
  by (auto simp: isDigit_def isWhiteSpace_def)

lemma dropWhile_none: "(\<And>c. c \<in> set s \<Longrightarrow> \<not> P c) \<Longrightarrow> dropWhile P s = s"
  by (cases s) simp_all

lemma trim_digits: "list_all isDigit s \<Longrightarrow> trim s = s"
proof -
  assume "list_all isDigit s"
  then have nw: "\<And>c. c \<in> set s \<Longrightarrow> \<not> isWhiteSpace c"
    by (simp add: list_all_iff digit_not_whitespace)
  then have "dropWhile isWhiteSpace s = s" by (rule dropWhile_none)
  moreover from nw have "dropWhile isWhiteSpace (rev s) = rev s"
    by (intro dropWhile_none) simp
  ultimately show ?thesis by (simp add: trim_def)
qed

lemma bitLength_pow2: "bitLength (2 ^ k) = Suc k"
proof (induction k)
  case 0
  show ?case by (simp add: bitLength.simps)
next
  case (Suc k)
  have "bitLength (2 ^ Suc k) = Suc (bitLength (2 ^ Suc k div 2))"
    by (subst bitLength.simps) simp
  with Suc show ?case by simp
qed

lemma bitLength_between: "2 ^ k \<le> n \<Longrightarrow> n < 2 ^ Suc k \<Longrightarrow> bitLength n = Suc k"
proof (induction k arbitrary: n)
  case 0
  then have "n = 1" by simp
  then show ?case by (simp add: bitLength.simps)
next
  case (Suc k)
  from Suc.prems have "2 ^ k \<le> n div 2" "n div 2 < 2 ^ Suc k" by auto
  then have "bitLength (n div 2) = Suc k" by (rule Suc.IH)
  moreover from Suc.prems have "n \<noteq> 0" by auto
  ultimately show ?case by (subst bitLength.simps) simp
qed

lemma roundToDouble_exact: "n < 2 ^ 53 \<Longrightarrow> roundToDouble n = n"
  by (simp add: roundToDouble_def)

lemma roundToDouble_pow53: "roundToDouble (2 ^ 53) = 2 ^ 53"
proof -
  have "bitLength (2 ^ 53) = 54"
    using bitLength_pow2 [of 53] by simp
  then show ?thesis
    by (simp add: roundToDouble_def Let_def)
qed

lemma roundToDouble_pow53_plus1: "roundToDouble (2 ^ 53 + 1) = 2 ^ 53"
proof -
  have "bitLength (2 ^ 53 + 1) = Suc 53"
    by (rule bitLength_between) simp_all
  then show ?thesis
    by (simp add: roundToDouble_def Let_def)
qed

lemma addOne_safe: "n \<le> MAX_SAFE_INTEGER \<Longrightarrow> addOne (Num n) = Num (n + 1)"
proof -
  assume "n \<le> MAX_SAFE_INTEGER"
  then have "n + 1 < 2 ^ 53 \<or> n + 1 = 2 ^ 53"
    by (auto simp: MAX_SAFE_INTEGER_def)
  then have "roundToDouble (n + 1) = n + 1"
    using roundToDouble_pow53 by (auto simp: roundToDouble_exact)
  then show ?thesis by simp
qed

lemma Number_js_digits:
  assumes "list_all isDigit s" "decimalValue s \<le> MAX_SAFE_INTEGER"
  shows "Number_js s = Some (Num (decimalValue s))"
proof (cases "s = []")
  case True
  then show ?thesis by (simp add: Number_js_def trim_def decimalValue_def)
next
  case False
  from assms(2) have "decimalValue s < 2 ^ 53" "decimalValue s \<le> 2 ^ 54"
    by (simp_all add: MAX_SAFE_INTEGER_def)
  with False assms(1) show ?thesis
    by (simp add: Number_js_def trim_digits roundToDouble_exact)
qed

lemma digits_no_dot: "list_all isDigit s \<Longrightarrow> CHR ''.'' \<notin> set s"
proof
  assume "list_all isDigit s" "CHR ''.'' \<in> set s"
  then have "isDigit CHR ''.''" by (simp add: list_all_iff)
  then show False by (simp add: isDigit_def)
qed

lemma splitOn_three:
  assumes "c \<notin> set x" "c \<notin> set y" "c \<notin> set z"
  shows "splitOn c (x @ [c] @ y @ [c] @ z) = [x, y, z]"
  using splitOn_append_sep [OF assms(1), of "y @ c # z"] splitOn_append_sep [OF assms(2), of z]
    splitOn_no_sep [OF assms(3)]
  by simp

lemma component_digits:
  assumes "list_all isDigit sa" "list_all isDigit sb" "list_all isDigit sc"
    and "decimalValue sa \<le> MAX_SAFE_INTEGER" "decimalValue sb \<le> MAX_SAFE_INTEGER"
      "decimalValue sc \<le> MAX_SAFE_INTEGER"
  shows "component (sa @ ''.'' @ sb @ ''.'' @ sc) 0 = Some (Num (decimalValue sa))"
    and "component (sa @ ''.'' @ sb @ ''.'' @ sc) 1 = Some (Num (decimalValue sb))"
    and "component (sa @ ''.'' @ sb @ ''.'' @ sc) 2 = Some (Num (decimalValue sc))"
proof -
  have "splitOn CHR ''.'' (sa @ ''.'' @ sb @ ''.'' @ sc) = [sa, sb, sc]"
    using assms(1-3) by (intro splitOn_three digits_no_dot)
  then have split: "splitOn CHR ''.'' (sa @ CHR ''.'' # sb @ CHR ''.'' # sc) = [sa, sb, sc]"
    by simp
  show "component (sa @ ''.'' @ sb @ ''.'' @ sc) 0 = Some (Num (decimalValue sa))"
    using assms by (simp add: component_def split Number_js_digits)
  show "component (sa @ ''.'' @ sb @ ''.'' @ sc) 1 = Some (Num (decimalValue sb))"
    using assms by (simp add: component_def split Number_js_digits)
  show "component (sa @ ''.'' @ sb @ ''.'' @ sc) 2 = Some (Num (decimalValue sc))"
    using assms by (simp add: component_def split Number_js_digits)
qed

lemma release_bumps:
  "component V 0 = Some (Num x) \<Longrightarrow> x \<le> MAX_SAFE_INTEGER \<Longrightarrow>
   snd (release (Some ''major'') V) = NewVersion (toDecimal (x + 1) @ ''.0.0'')"
  "component V 0 = Some (Num x) \<Longrightarrow> component V 1 = Some (Num y) \<Longrightarrow> y \<le> MAX_SAFE_INTEGER \<Longrightarrow>
   snd (release (Some ''minor'') V) = NewVersion (toDecimal x @ ''.'' @ toDecimal (y + 1) @ ''.0'')"
  "component V 0 = Some (Num x) \<Longrightarrow> component V 1 = Some (Num y) \<Longrightarrow>
   component V 2 = Some (Num z) \<Longrightarrow> z \<le> MAX_SAFE_INTEGER \<Longrightarrow>
   snd (release (Some ''patch'') V) =
     NewVersion (toDecimal x @ ''.'' @ toDecimal y @ ''.'' @ toDecimal (z + 1))"
  by (simp_all add: release_def BUMP_TYPE_def newVersion_def addOne_safe del: addOne.simps)

lemma char_of_digits:
  "char_of (48::nat) = CHR ''0''" "char_of (49::nat) = CHR ''1''"
  "char_of (50::nat) = CHR ''2''" "char_of (51::nat) = CHR ''3''"
  "char_of (52::nat) = CHR ''4''" "char_of (53::nat) = CHR ''5''"
  "char_of (54::nat) = CHR ''6''" "char_of (55::nat) = CHR ''7''"
  "char_of (56::nat) = CHR ''8''" "char_of (57::nat) = CHR ''9''"
  by (simp_all add: char_of_def bit_iff_odd)

lemma toDecimal_examples:
  "toDecimal 0 = ''0''" "toDecimal 2 = ''2''" "toDecimal 3 = ''3''" "toDecimal 4 = ''4''"
  "toDecimal 5 = ''5''"
  "toDecimal 9007199254740992 = ''9007199254740992''"
  by (simp_all add: toDecimal.simps char_of_digits)

lemma decimalValue_examples:
  "decimalValue ''0'' = 0" "decimalValue ''2'' = 2" "decimalValue ''02'' = 2"
  "decimalValue ''3'' = 3" "decimalValue ''4'' = 4" "decimalValue ''004'' = 4"
  "decimalValue ''9007199254740992'' = 9007199254740992"
  by (simp_all add: decimalValue_def digitValue_def)

lemma digits_examples:
  "list_all isDigit ''0''" "list_all isDigit ''2''" "list_all isDigit ''02''"
  "list_all isDigit ''3''" "list_all isDigit ''4''" "list_all isDigit ''004''"
  "list_all isDigit ''9007199254740992''"
  by (simp_all add: isDigit_def)

lemma Number_js_examples:
  "Number_js ''2'' = Some (Num 2)" "Number_js ''3'' = Some (Num 3)" "Number_js ''4'' = Some (Num 4)"
  "Number_js ''0'' = Some (Num 0)"
  "Number_js ''9007199254740992'' = Some (Num 9007199254740992)"
proof -
  show "Number_js ''2'' = Some (Num 2)" "Number_js ''3'' = Some (Num 3)"
    "Number_js ''4'' = Some (Num 4)" "Number_js ''0'' = Some (Num 0)"
    by (simp_all add: Number_js_def trim_def isWhiteSpace_def isDigit_def decimalValue_def
        digitValue_def roundToDouble_def)
  have "roundToDouble 9007199254740992 = 9007199254740992"
    using roundToDouble_pow53 by simp
  moreover have "trim ''9007199254740992'' = ''9007199254740992''"
    by (rule trim_digits) (rule digits_examples)
  ultimately show "Number_js ''9007199254740992'' = Some (Num 9007199254740992)"
    by (simp add: Number_js_def isDigit_def decimalValue_examples)
qed

lemma release_examples:
  "release (Some []) ''2.3.4'' =
     ([ReadFile ''manifest.json'', ConsoleLog ''Current version: 2.3.4''], NewVersion ''2.3.5'')"
  "release (Some ''major'') ''9007199254740992.0.0'' =
     ([ReadFile ''manifest.json'', ConsoleLog ''Current version: 9007199254740992.0.0''],
      NewVersion ''9007199254740992.0.0'')"
proof -
  show "release (Some []) ''2.3.4'' =
     ([ReadFile ''manifest.json'', ConsoleLog ''Current version: 2.3.4''], NewVersion ''2.3.5'')"
    by (simp add: release_def BUMP_TYPE_def newVersion_def component_def Number_js_examples
        roundToDouble_exact toDecimal_examples)
  have "roundToDouble 9007199254740993 = 9007199254740992"
    using roundToDouble_pow53_plus1 by simp
  then show "release (Some ''major'') ''9007199254740992.0.0'' =
     ([ReadFile ''manifest.json'', ConsoleLog ''Current version: 9007199254740992.0.0''],
      NewVersion ''9007199254740992.0.0'')"
    by (simp add: release_def BUMP_TYPE_def newVersion_def component_def Number_js_examples
        toDecimal_examples)
qed

lemma release_missing_component:
  "snd (release (Some ''patch'') ''2.3'') = NewVersion ''2.3.NaN''"
  by (simp add: release_def BUMP_TYPE_def newVersion_def component_def Number_js_examples
      toDecimal_examples)

lemma find_first:
  "r \<in> set rs \<Longrightarrow> Q r \<Longrightarrow> (\<And>x. x \<in> set (takeWhile (\<lambda>x. x \<noteq> r) rs) \<Longrightarrow> \<not> Q x) \<Longrightarrow>
   find Q rs = Some r"
  by (induction rs) auto

section \<open>Claims about validateParaFolderPath and isNestedPath\<close>

text \<open>
  C1. For every role R, candidate path P and assignment A, \<open>validateParaFolderPath P R A\<close>
  returns \<open>null\<close> (Valid) exactly when P is neither equal to nor nested with the path of
  any role other than R; the path A holds for R itself does not matter.
\<close>

theorem validate_valid_iff_no_conflict:
  "(validateParaFolderPath P R A = None \<longleftrightarrow>
      (\<forall>r. r \<noteq> R \<longrightarrow> P \<noteq> getPath A r \<and> \<not> isNestedPath P (getPath A r)))
   \<and> validateParaFolderPath P R (setPath A R x) = validateParaFolderPath P R A"
  by (simp add: validate_None_iff validate_ignores_own)

theorem validate_valid_iff_no_conflict_witness:
  "validateParaFolderPath ''Notes'' AreasPath DEFAULT_SETTINGS = None
   \<and> validateParaFolderPath ''Notes'' AreasPath (setPath DEFAULT_SETTINGS AreasPath ''Stale'') = None"
proof -
  have h: "\<forall>r. r \<noteq> AreasPath \<longrightarrow>
      ''Notes'' \<noteq> getPath DEFAULT_SETTINGS r \<and> \<not> isNestedPath ''Notes'' (getPath DEFAULT_SETTINGS r)"
  proof (intro allI impI)
    fix r :: ParaFolderField
    assume "r \<noteq> AreasPath"
    then show "''Notes'' \<noteq> getPath DEFAULT_SETTINGS r \<and> \<not> isNestedPath ''Notes'' (getPath DEFAULT_SETTINGS r)"
      by (cases r) (simp_all add: DEFAULT_SETTINGS_def isNestedPath_def Let_def)
  qed
  from validate_valid_iff_no_conflict [of "''Notes''" AreasPath DEFAULT_SETTINGS "''Stale''"] h
  show ?thesis by simp
qed

text \<open>
  C7. Nesting is symmetric: \<open>isNestedPath P Q\<close> holds if and only if \<open>isNestedPath Q P\<close> does.
\<close>

theorem isNestedPath_symmetric: "isNestedPath P Q \<longleftrightarrow> isNestedPath Q P"
  by (rule isNestedPath_sym)

text \<open>
  C2. \<open>isNestedPath A B\<close> holds exactly when, with A and B split on \<open>/\<close>, one list of
  segments is a strict prefix of the other (a prefix of segments, not of characters).
  With another role at \<open>Projects\<close> and the remaining roles not in conflict, the candidate
  \<open>Proj\<close> is valid and the candidate \<open>Projects/Archive\<close> is a NestedPath conflict with
  that role.
\<close>

theorem isNestedPath_segment_prefix:
  "(isNestedPath A B \<longleftrightarrow>
      strict_prefix (splitOn CHR ''/'' A) (splitOn CHR ''/'' B) \<or>
      strict_prefix (splitOn CHR ''/'' B) (splitOn CHR ''/'' A))
   \<and> (strict_prefix ''Proj'' ''Projects'' \<and> \<not> isNestedPath ''Proj'' ''Projects'')
   \<and> (other \<noteq> R \<and> getPath s other = ''Projects'' \<and>
        (\<forall>r. r \<noteq> R \<and> r \<noteq> other \<longrightarrow>
           ''Proj'' \<noteq> getPath s r \<and> \<not> isNestedPath ''Proj'' (getPath s r))
        \<longrightarrow> validateParaFolderPath ''Proj'' R s = None)
   \<and> (other \<noteq> R \<and> getPath s other = ''Projects'' \<and>
        (\<forall>r. r \<noteq> R \<and> r \<noteq> other \<longrightarrow>
           ''Projects/Archive'' \<noteq> getPath s r \<and> \<not> isNestedPath ''Projects/Archive'' (getPath s r))
        \<longrightarrow> validateParaFolderPath ''Projects/Archive'' R s =
              Some (conflictMessage NestedPath R other))"
proof (intro conjI impI)
  show "isNestedPath A B \<longleftrightarrow>
      strict_prefix (splitOn CHR ''/'' A) (splitOn CHR ''/'' B) \<or>
      strict_prefix (splitOn CHR ''/'' B) (splitOn CHR ''/'' A)"
    by (rule isNestedPath_segments_iff)
  show "strict_prefix ''Proj'' ''Projects''"
    by (simp add: strict_prefix_def)
  show "\<not> isNestedPath ''Proj'' ''Projects''"
    by (rule nested_examples)
next
  assume h: "other \<noteq> R \<and> getPath s other = ''Projects'' \<and>
        (\<forall>r. r \<noteq> R \<and> r \<noteq> other \<longrightarrow>
           ''Proj'' \<noteq> getPath s r \<and> \<not> isNestedPath ''Proj'' (getPath s r))"
  have "''Proj'' \<noteq> getPath s r \<and> \<not> isNestedPath ''Proj'' (getPath s r)" if "r \<noteq> R" for r
  proof (cases "r = other")
    case True
    with h show ?thesis by (simp add: nested_examples)
  next
    case False
    with h that show ?thesis by blast
  qed
  then show "validateParaFolderPath ''Proj'' R s = None"
    by (simp add: validate_None_iff)
next
  assume h: "other \<noteq> R \<and> getPath s other = ''Projects'' \<and>
        (\<forall>r. r \<noteq> R \<and> r \<noteq> other \<longrightarrow>
           ''Projects/Archive'' \<noteq> getPath s r \<and> \<not> isNestedPath ''Projects/Archive'' (getPath s r))"
  let ?Q = "\<lambda>r. ''Projects/Archive'' = getPath s r \<or> isNestedPath ''Projects/Archive'' (getPath s r)"
  have "find ?Q (otherFields R) = Some other"
  proof (rule find_unique)
    from h show "other \<in> set (otherFields R)" by (simp add: set_otherFields)
    from h show "?Q other" by (simp add: nested_examples)
    fix r assume "r \<in> set (otherFields R)" "r \<noteq> other"
    with h show "\<not> ?Q r" by (simp add: set_otherFields)
  qed
  with h show "validateParaFolderPath ''Projects/Archive'' R s =
      Some (conflictMessage NestedPath R other)"
    by (simp add: validate_find)
qed

theorem isNestedPath_segment_prefix_witness:
  "validateParaFolderPath ''Proj'' AreasPath DEFAULT_SETTINGS = None
   \<and> validateParaFolderPath ''Projects/Archive'' AreasPath DEFAULT_SETTINGS =
       Some ''Areas folder cannot be nested with Projects folder''"
proof -
  have h1: "ProjectsPath \<noteq> AreasPath \<and> getPath DEFAULT_SETTINGS ProjectsPath = ''Projects'' \<and>
        (\<forall>r. r \<noteq> AreasPath \<and> r \<noteq> ProjectsPath \<longrightarrow>
           ''Proj'' \<noteq> getPath DEFAULT_SETTINGS r \<and> \<not> isNestedPath ''Proj'' (getPath DEFAULT_SETTINGS r))"
  proof (intro conjI allI impI)
    fix r assume "r \<noteq> AreasPath \<and> r \<noteq> ProjectsPath"
    then show "''Proj'' \<noteq> getPath DEFAULT_SETTINGS r"
      and "\<not> isNestedPath ''Proj'' (getPath DEFAULT_SETTINGS r)"
      by (cases r; simp add: DEFAULT_SETTINGS_def isNestedPath_def Let_def)+
  qed (simp_all add: DEFAULT_SETTINGS_def)
  have h2: "ProjectsPath \<noteq> AreasPath \<and> getPath DEFAULT_SETTINGS ProjectsPath = ''Projects'' \<and>
        (\<forall>r. r \<noteq> AreasPath \<and> r \<noteq> ProjectsPath \<longrightarrow>
           ''Projects/Archive'' \<noteq> getPath DEFAULT_SETTINGS r \<and>
           \<not> isNestedPath ''Projects/Archive'' (getPath DEFAULT_SETTINGS r))"
  proof (intro conjI allI impI)
    fix r assume "r \<noteq> AreasPath \<and> r \<noteq> ProjectsPath"
    then show "''Projects/Archive'' \<noteq> getPath DEFAULT_SETTINGS r"
      and "\<not> isNestedPath ''Projects/Archive'' (getPath DEFAULT_SETTINGS r)"
      by (cases r; simp add: DEFAULT_SETTINGS_def isNestedPath_def Let_def)+
  qed (simp_all add: DEFAULT_SETTINGS_def)
  from isNestedPath_segment_prefix
    [where other = ProjectsPath and R = AreasPath and s = DEFAULT_SETTINGS] h1 h2
  show ?thesis by simp
qed

text \<open>
  C3 (as amended). The roles compared are the four roles in the order Projects, Areas,
  Resources, Archive with the edited role removed; the result is decided by the first of
  them whose path is equal to or nested with the candidate, and for that role equality is
  reported as SamePath before nesting is looked at. So a candidate in conflict with
  several roles reports the first only. A candidate equal to the path of another role is
  always a conflict and never a NestedPath conflict with that role; it is the SamePath
  conflict with that role when no earlier role in the order is in conflict.
\<close>

theorem validate_reports_first_conflict:
  "otherFields R = remove1 R [ProjectsPath, AreasPath, ResourcesPath, ArchivePath]
   \<and> validateParaFolderPath P R A =
       (case find (\<lambda>r. P = getPath A r \<or> isNestedPath P (getPath A r)) (otherFields R) of
          None \<Rightarrow> None
        | Some r \<Rightarrow> Some (conflictMessage (if P = getPath A r then SamePath else NestedPath) R r))
   \<and> (r \<noteq> R \<and> P = getPath A r \<longrightarrow>
        validateParaFolderPath P R A \<noteq> None \<and>
        validateParaFolderPath P R A \<noteq> Some (conflictMessage NestedPath R r))
   \<and> (r \<noteq> R \<and> P = getPath A r \<and>
        (\<forall>r' \<in> set (takeWhile (\<lambda>x. x \<noteq> r) (otherFields R)).
           P \<noteq> getPath A r' \<and> \<not> isNestedPath P (getPath A r'))
        \<longrightarrow> validateParaFolderPath P R A = Some (conflictMessage SamePath R r))"
proof (intro conjI impI)
  show "otherFields R = remove1 R [ProjectsPath, AreasPath, ResourcesPath, ArchivePath]"
    by (cases R) (simp_all add: otherFields_cases)
  show "validateParaFolderPath P R A =
       (case find (\<lambda>r. P = getPath A r \<or> isNestedPath P (getPath A r)) (otherFields R) of
          None \<Rightarrow> None
        | Some r \<Rightarrow> Some (conflictMessage (if P = getPath A r then SamePath else NestedPath) R r))"
    by (rule validate_find)
next
  assume h: "r \<noteq> R \<and> P = getPath A r"
  then show "validateParaFolderPath P R A \<noteq> None"
    by (auto simp: validate_None_iff)
next
  assume h: "r \<noteq> R \<and> P = getPath A r"
  show "validateParaFolderPath P R A \<noteq> Some (conflictMessage NestedPath R r)"
  proof
    assume eq: "validateParaFolderPath P R A = Some (conflictMessage NestedPath R r)"
    then obtain r' where
      f: "find (\<lambda>r. P = getPath A r \<or> isNestedPath P (getPath A r)) (otherFields R) = Some r'"
      and m: "conflictMessage (if P = getPath A r' then SamePath else NestedPath) R r' =
              conflictMessage NestedPath R r"
      by (auto simp: validate_find split: option.splits)
    from conflictMessage_inject [OF m]
    have k: "(if P = getPath A r' then SamePath else NestedPath) = NestedPath" and r': "r' = r"
      by blast+
    from k have "P \<noteq> getPath A r'"
      by (cases "P = getPath A r'") simp_all
    with r' h show False by simp
  qed
next
  assume h: "r \<noteq> R \<and> P = getPath A r \<and>
        (\<forall>r' \<in> set (takeWhile (\<lambda>x. x \<noteq> r) (otherFields R)).
           P \<noteq> getPath A r' \<and> \<not> isNestedPath P (getPath A r'))"
  let ?Q = "\<lambda>r. P = getPath A r \<or> isNestedPath P (getPath A r)"
  have "find ?Q (otherFields R) = Some r"
  proof (rule find_first)
    from h show "r \<in> set (otherFields R)" by (simp add: set_otherFields)
    from h show "?Q r" by simp
    fix x assume "x \<in> set (takeWhile (\<lambda>x. x \<noteq> r) (otherFields R))"
    with h show "\<not> ?Q x" by blast
  qed
  with h show "validateParaFolderPath P R A = Some (conflictMessage SamePath R r)"
    by (simp add: validate_find)
qed

theorem validate_reports_first_conflict_witness:
  "validateParaFolderPath ''Areas'' ArchivePath DEFAULT_SETTINGS =
     Some ''Archive folder cannot be the same as Areas folder''
   \<and> validateParaFolderPath ''Areas'' ArchivePath DEFAULT_SETTINGS \<noteq>
       Some (conflictMessage NestedPath ArchivePath AreasPath)"
proof -
  have h: "AreasPath \<noteq> ArchivePath \<and> ''Areas'' = getPath DEFAULT_SETTINGS AreasPath \<and>
      (\<forall>r' \<in> set (takeWhile (\<lambda>x. x \<noteq> AreasPath) (otherFields ArchivePath)).
         ''Areas'' \<noteq> getPath DEFAULT_SETTINGS r' \<and>
         \<not> isNestedPath ''Areas'' (getPath DEFAULT_SETTINGS r'))"
    by (simp add: otherFields_cases DEFAULT_SETTINGS_def isNestedPath_def Let_def)
  note t = validate_reports_first_conflict
    [where R = ArchivePath and r = AreasPath and P = "''Areas''" and A = DEFAULT_SETTINGS]
  from t h have same: "validateParaFolderPath ''Areas'' ArchivePath DEFAULT_SETTINGS =
      Some (conflictMessage SamePath ArchivePath AreasPath)"
    by blast
  from t h have not_nested: "validateParaFolderPath ''Areas'' ArchivePath DEFAULT_SETTINGS \<noteq>
      Some (conflictMessage NestedPath ArchivePath AreasPath)"
    by blast
  from same not_nested show ?thesis by simp
qed

text \<open>
  The claim as stated fails where an earlier role is nested with the candidate: editing
  Archive to \<open>A/B\<close> while Projects is \<open>A\<close> and Areas is \<open>A/B\<close>, the candidate equals the
  path of Areas, and the result is the NestedPath conflict with Projects, not a SamePath
  conflict.
\<close>

theorem validate_equal_path_counterexample:
  "AreasPath \<noteq> ArchivePath
   \<and> ''A/B'' = getPath (DEFAULT_SETTINGS\<lparr>projectsPath := ''A'', areasPath := ''A/B''\<rparr>) AreasPath
   \<and> validateParaFolderPath ''A/B'' ArchivePath
       (DEFAULT_SETTINGS\<lparr>projectsPath := ''A'', areasPath := ''A/B''\<rparr>) =
       Some (conflictMessage NestedPath ArchivePath ProjectsPath)
   \<and> validateParaFolderPath ''A/B'' ArchivePath
       (DEFAULT_SETTINGS\<lparr>projectsPath := ''A'', areasPath := ''A/B''\<rparr>) \<noteq>
       Some (conflictMessage SamePath ArchivePath ProjectsPath)
   \<and> validateParaFolderPath ''A/B'' ArchivePath
       (DEFAULT_SETTINGS\<lparr>projectsPath := ''A'', areasPath := ''A/B''\<rparr>) \<noteq>
       Some (conflictMessage SamePath ArchivePath AreasPath)
   \<and> validateParaFolderPath ''A/B'' ArchivePath
       (DEFAULT_SETTINGS\<lparr>projectsPath := ''A'', areasPath := ''A/B''\<rparr>) \<noteq>
       Some (conflictMessage SamePath ArchivePath ResourcesPath)"
  by (simp add: validateParaFolderPath_def otherFields_cases DEFAULT_SETTINGS_def
      isNestedPath_def Let_def)

text \<open>
  C4. \<open>validateParaFolderPath\<close> is a total function whose result has one of three shapes:
  \<open>null\<close> (Valid) when no other role is in conflict; the SamePath message naming the
  edited role and another role whose path equals the candidate; or the NestedPath message
  naming the edited role and another role whose path differs from the candidate and is
  nested with it. The message determines the kind and both roles.
\<close>

theorem validate_result_shapes:
  "((validateParaFolderPath P R A = renderResult Valid
      \<and> list_all (\<lambda>r. P \<noteq> getPath A r \<and> \<not> isNestedPath P (getPath A r)) (otherFields R))
    \<or> (\<exists>other. other \<noteq> R \<and> P = getPath A other
          \<and> validateParaFolderPath P R A = renderResult (Conflict SamePath R other))
    \<or> (\<exists>other. other \<noteq> R \<and> P \<noteq> getPath A other \<and> isNestedPath P (getPath A other)
          \<and> validateParaFolderPath P R A = renderResult (Conflict NestedPath R other)))
   \<and> inj renderResult"
proof (rule conjI)
  show "inj renderResult" by (rule renderResult_inj)
  let ?Q = "\<lambda>r. P = getPath A r \<or> isNestedPath P (getPath A r)"
  show "(validateParaFolderPath P R A = renderResult Valid
      \<and> list_all (\<lambda>r. P \<noteq> getPath A r \<and> \<not> isNestedPath P (getPath A r)) (otherFields R))
    \<or> (\<exists>other. other \<noteq> R \<and> P = getPath A other
          \<and> validateParaFolderPath P R A = renderResult (Conflict SamePath R other))
    \<or> (\<exists>other. other \<noteq> R \<and> P \<noteq> getPath A other \<and> isNestedPath P (getPath A other)
          \<and> validateParaFolderPath P R A = renderResult (Conflict NestedPath R other))"
  proof (cases "find ?Q (otherFields R)")
    case None
    then have "list_all (\<lambda>r. P \<noteq> getPath A r \<and> \<not> isNestedPath P (getPath A r)) (otherFields R)"
      by (auto simp: find_None_iff list_all_iff)
    with None show ?thesis by (simp add: validate_find)
  next
    case (Some r)
    then have "r \<in> set (otherFields R)" and q: "?Q r"
      by (auto simp: find_Some_iff)
    then have ne: "r \<noteq> R" by (simp add: set_otherFields)
    show ?thesis
    proof (cases "P = getPath A r")
      case True
      with Some ne have "r \<noteq> R \<and> P = getPath A r
          \<and> validateParaFolderPath P R A = renderResult (Conflict SamePath R r)"
        by (simp add: validate_find)
      then show ?thesis by blast
    next
      case False
      with Some ne q have "r \<noteq> R \<and> P \<noteq> getPath A r \<and> isNestedPath P (getPath A r)
          \<and> validateParaFolderPath P R A = renderResult (Conflict NestedPath R r)"
        by (simp add: validate_find)
      then show ?thesis by blast
    qed
  qed
qed

text \<open>
  C8. An assignment that satisfies the invariant is self-consistent: validating the
  committed path of any role against the other three reports no conflict.
\<close>

theorem valid_assignment_self_consistent:
  "pathInvariant A \<Longrightarrow> validateParaFolderPath (getPath A R) R A = None"
  by (simp add: validate_None_iff pathInvariant_iff)

theorem valid_assignment_self_consistent_witness:
  "pathInvariant DEFAULT_SETTINGS
   \<and> validateParaFolderPath (getPath DEFAULT_SETTINGS ResourcesPath) ResourcesPath DEFAULT_SETTINGS = None"
  using valid_assignment_self_consistent [OF pathInvariant_DEFAULT, of ResourcesPath]
    pathInvariant_DEFAULT
  by simp

section \<open>Claims about the blur handler\<close>

text \<open>
  C5. The commit is atomic with respect to validation: when validation of the
  normalized candidate fails, the settings record is left exactly as it was and nothing
  is saved; when it succeeds, the field of the edited role becomes the normalized
  candidate and no other path and neither toggle changes.
\<close>

theorem onBlur_commit_atomic:
  "(validateParaFolderPath (normalizeInput R v) R s \<noteq> None \<longrightarrow>
      settingsAfter (onBlur R v s) = s \<and> \<not> saved (onBlur R v s))
   \<and> (validateParaFolderPath (normalizeInput R v) R s = None \<longrightarrow>
        settingsAfter (onBlur R v s) = setPath s R (normalizeInput R v)
        \<and> getPath (settingsAfter (onBlur R v s)) R = normalizeInput R v
        \<and> (\<forall>r. r \<noteq> R \<longrightarrow> getPath (settingsAfter (onBlur R v s)) r = getPath s r)
        \<and> focusAfterArchive (settingsAfter (onBlur R v s)) = focusAfterArchive s
        \<and> confirmBeforeArchive (settingsAfter (onBlur R v s)) = confirmBeforeArchive s)"
  by (simp add: settingsAfter_onBlur saved_onBlur getPath_setPath_same getPath_setPath_other
      setPath_toggles)

theorem onBlur_commit_atomic_witness:
  "settingsAfter (onBlur AreasPath '' Projects/ '' DEFAULT_SETTINGS) = DEFAULT_SETTINGS
   \<and> \<not> saved (onBlur AreasPath '' Projects/ '' DEFAULT_SETTINGS)
   \<and> settingsAfter (onBlur AreasPath ''  Notes// '' DEFAULT_SETTINGS) =
       DEFAULT_SETTINGS\<lparr>areasPath := ''Notes''\<rparr>"
proof -
  have fails: "validateParaFolderPath (normalizeInput AreasPath '' Projects/ '') AreasPath
      DEFAULT_SETTINGS \<noteq> None"
    by (simp add: normalize_examples validateParaFolderPath_def otherFields_cases
        DEFAULT_SETTINGS_def)
  have passes: "validateParaFolderPath (normalizeInput AreasPath ''  Notes// '') AreasPath
      DEFAULT_SETTINGS = None"
    by (simp add: normalize_examples validateParaFolderPath_def otherFields_cases
        DEFAULT_SETTINGS_def isNestedPath_def Let_def)
  from onBlur_commit_atomic [of AreasPath "'' Projects/ ''" DEFAULT_SETTINGS] fails
    onBlur_commit_atomic [of AreasPath "''  Notes// ''" DEFAULT_SETTINGS] passes
  show ?thesis by (simp add: normalize_examples)
qed



text \<open>
  C9. The handler validates the normalized input: the input with the white space around
  it removed and then the slashes at its end removed, or the default of the role when
  nothing remains (in particular when the trimmed input is empty). The candidate is
  therefore never empty and never made of white space only.
\<close>

theorem normalizeInput_before_validate:
  "(\<exists>pre post n. v = pre @ trim v @ post \<and> list_all isWhiteSpace pre \<and> list_all isWhiteSpace post
      \<and> trim v = stripTrailingSlashes (trim v) @ replicate n CHR ''/'')
   \<and> (trim v \<noteq> [] \<longrightarrow> \<not> isWhiteSpace (hd (trim v)) \<and> \<not> isWhiteSpace (last (trim v)))
   \<and> (stripTrailingSlashes (trim v) \<noteq> [] \<longrightarrow> last (stripTrailingSlashes (trim v)) \<noteq> CHR ''/'')
   \<and> normalizeInput R v =
       (if stripTrailingSlashes (trim v) = [] then FOLDER_DEFAULTS R
        else stripTrailingSlashes (trim v))
   \<and> (trim v = [] \<longrightarrow> normalizeInput R v = FOLDER_DEFAULTS R)
   \<and> normalizeInput R v \<noteq> [] \<and> \<not> list_all isWhiteSpace (normalizeInput R v)
   \<and> notice (onBlur R v s) = validateParaFolderPath (normalizeInput R v) R s"
proof -
  obtain pre post where "v = pre @ trim v @ post" "list_all isWhiteSpace pre"
    "list_all isWhiteSpace post"
    using trim_decomposition by blast
  moreover obtain n where "trim v = stripTrailingSlashes (trim v) @ replicate n CHR ''/''"
    using strip_decomposition by blast
  ultimately have dec: "\<exists>pre post n. v = pre @ trim v @ post \<and> list_all isWhiteSpace pre \<and>
      list_all isWhiteSpace post \<and> trim v = stripTrailingSlashes (trim v) @ replicate n CHR ''/''"
    by blast
  have empty: "trim v = [] \<longrightarrow> normalizeInput R v = FOLDER_DEFAULTS R"
    by (simp add: normalizeInput_def stripTrailingSlashes_def)
  have def: "normalizeInput R v =
       (if stripTrailingSlashes (trim v) = [] then FOLDER_DEFAULTS R
        else stripTrailingSlashes (trim v))"
    by (simp add: normalizeInput_def)
  from dec trim_ends strip_last def empty normalizeInput_not_blank notice_onBlur
  show ?thesis by blast
qed

theorem normalizeInput_before_validate_witness:
  "normalizeInput AreasPath ''  Notes// '' = ''Notes''
   \<and> \<not> isWhiteSpace (hd (trim ''  Notes// '')) \<and> \<not> isWhiteSpace (last (trim ''  Notes// ''))
   \<and> last (stripTrailingSlashes (trim ''  Notes// '')) \<noteq> CHR ''/''
   \<and> trim [CHR 0x09, CHR '' '', CHR 0x0A] = []
   \<and> normalizeInput AreasPath [CHR 0x09, CHR '' '', CHR 0x0A] = FOLDER_DEFAULTS AreasPath"
proof -
  have h1: "trim ''  Notes// '' \<noteq> []"
    by (simp add: trim_examples)
  have h2: "stripTrailingSlashes (trim ''  Notes// '') \<noteq> []"
    by (simp add: trim_examples stripTrailingSlashes_def)
  have h3: "trim [CHR 0x09, CHR '' '', CHR 0x0A] = []"
    by (simp add: trim_examples)
  from normalizeInput_before_validate [of "''  Notes// ''" AreasPath DEFAULT_SETTINGS] h1 h2
    normalizeInput_before_validate [of "[CHR 0x09, CHR '' '', CHR 0x0A]" AreasPath DEFAULT_SETTINGS] h3
  show ?thesis by (simp add: normalize_examples)
qed

section \<open>Claims about the release script\<close>

text \<open>
  C10 (as amended). For a current version \<open>major.minor.patch\<close> whose components are
  runs of decimal digits with values up to \<open>Number.MAX_SAFE_INTEGER\<close>, the bump \<open>major\<close>
  yields \<open>(major+1).0.0\<close>, \<open>minor\<close> yields \<open>major.(minor+1).0\<close> and \<open>patch\<close> yields
  \<open>major.minor.(patch+1)\<close>, printed as decimal numerals. A non-empty command-line bump
  type other than \<open>patch\<close>, \<open>minor\<close> or \<open>major\<close> is rejected with exit code 1 before any
  file is read or written; a missing or empty argument stands for \<open>patch\<close>.
\<close>

theorem release_version_bump:
  "(a \<noteq> [] \<and> a \<notin> set [''patch'', ''minor'', ''major''] \<longrightarrow>
      release (Some a) version =
        ([ConsoleError ''Usage: node scripts/release.mjs [patch|minor|major]''], Exited 1)
      \<and> \<not> list_ex isFileEvent (fst (release (Some a) version)))
   \<and> release None version = release (Some ''patch'') version
   \<and> release (Some []) version = release (Some ''patch'') version
   \<and> (list_all isDigit sa \<and> list_all isDigit sb \<and> list_all isDigit sc \<and>
       decimalValue sa \<le> MAX_SAFE_INTEGER \<and> decimalValue sb \<le> MAX_SAFE_INTEGER \<and>
       decimalValue sc \<le> MAX_SAFE_INTEGER \<longrightarrow>
        snd (release (Some ''major'') (sa @ ''.'' @ sb @ ''.'' @ sc)) =
          NewVersion (toDecimal (decimalValue sa + 1) @ ''.0.0'')
        \<and> snd (release (Some ''minor'') (sa @ ''.'' @ sb @ ''.'' @ sc)) =
          NewVersion (toDecimal (decimalValue sa) @ ''.'' @ toDecimal (decimalValue sb + 1) @ ''.0'')
        \<and> snd (release (Some ''patch'') (sa @ ''.'' @ sb @ ''.'' @ sc)) =
          NewVersion (toDecimal (decimalValue sa) @ ''.'' @ toDecimal (decimalValue sb) @ ''.'' @
                      toDecimal (decimalValue sc + 1)))
   \<and> (x \<le> MAX_SAFE_INTEGER \<and> y \<le> MAX_SAFE_INTEGER \<and> z \<le> MAX_SAFE_INTEGER \<longrightarrow>
        snd (release (Some ''major'') (toDecimal x @ ''.'' @ toDecimal y @ ''.'' @ toDecimal z)) =
          NewVersion (toDecimal (x + 1) @ ''.0.0'')
        \<and> snd (release (Some ''minor'') (toDecimal x @ ''.'' @ toDecimal y @ ''.'' @ toDecimal z)) =
          NewVersion (toDecimal x @ ''.'' @ toDecimal (y + 1) @ ''.0'')
        \<and> snd (release (Some ''patch'') (toDecimal x @ ''.'' @ toDecimal y @ ''.'' @ toDecimal z)) =
          NewVersion (toDecimal x @ ''.'' @ toDecimal y @ ''.'' @ toDecimal (z + 1)))"
proof -
  have reject: "release (Some a) version =
        ([ConsoleError ''Usage: node scripts/release.mjs [patch|minor|major]''], Exited 1)
      \<and> \<not> list_ex isFileEvent (fst (release (Some a) version))"
    if h: "a \<noteq> [] \<and> a \<notin> set [''patch'', ''minor'', ''major'']" for a version
  proof -
    from h have bump: "BUMP_TYPE (Some a) = a" by (simp add: BUMP_TYPE_def)
    from h have "BUMP_TYPE (Some a) \<notin> set [''patch'', ''minor'', ''major'']"
      unfolding bump by blast
    then have r: "release (Some a) version =
        ([ConsoleError ''Usage: node scripts/release.mjs [patch|minor|major]''], Exited 1)"
      by (simp add: release_def Let_def)
    then show ?thesis by simp
  qed
  have dflt: "release None version = release (Some ''patch'') version"
    "release (Some []) version = release (Some ''patch'') version"
    by (simp_all add: release_def BUMP_TYPE_def)
  have digits: "snd (release (Some ''major'') (sa @ ''.'' @ sb @ ''.'' @ sc)) =
          NewVersion (toDecimal (decimalValue sa + 1) @ ''.0.0'')
        \<and> snd (release (Some ''minor'') (sa @ ''.'' @ sb @ ''.'' @ sc)) =
          NewVersion (toDecimal (decimalValue sa) @ ''.'' @ toDecimal (decimalValue sb + 1) @ ''.0'')
        \<and> snd (release (Some ''patch'') (sa @ ''.'' @ sb @ ''.'' @ sc)) =
          NewVersion (toDecimal (decimalValue sa) @ ''.'' @ toDecimal (decimalValue sb) @ ''.'' @
                      toDecimal (decimalValue sc + 1))"
    if h: "list_all isDigit sa \<and> list_all isDigit sb \<and> list_all isDigit sc \<and>
       decimalValue sa \<le> MAX_SAFE_INTEGER \<and> decimalValue sb \<le> MAX_SAFE_INTEGER \<and>
       decimalValue sc \<le> MAX_SAFE_INTEGER" for sa sb sc
  proof -
    let ?V = "sa @ ''.'' @ sb @ ''.'' @ sc"
    from h have c0: "component ?V 0 = Some (Num (decimalValue sa))"
      and c1: "component ?V 1 = Some (Num (decimalValue sb))"
      and c2: "component ?V 2 = Some (Num (decimalValue sc))"
      by (blast intro: component_digits)+
    from h have b: "decimalValue sa \<le> MAX_SAFE_INTEGER" "decimalValue sb \<le> MAX_SAFE_INTEGER"
      "decimalValue sc \<le> MAX_SAFE_INTEGER"
      by blast+
    from c0 b(1) have "snd (release (Some ''major'') ?V) =
        NewVersion (toDecimal (decimalValue sa + 1) @ ''.0.0'')"
      by (rule release_bumps)
    moreover from c0 c1 b(2) have "snd (release (Some ''minor'') ?V) =
        NewVersion (toDecimal (decimalValue sa) @ ''.'' @ toDecimal (decimalValue sb + 1) @ ''.0'')"
      by (rule release_bumps)
    moreover from c0 c1 c2 b(3) have "snd (release (Some ''patch'') ?V) =
        NewVersion (toDecimal (decimalValue sa) @ ''.'' @ toDecimal (decimalValue sb) @ ''.'' @
                    toDecimal (decimalValue sc + 1))"
      by (rule release_bumps)
    ultimately show ?thesis by blast
  qed
  have canonical: "snd (release (Some ''major'') (toDecimal x @ ''.'' @ toDecimal y @ ''.'' @ toDecimal z)) =
          NewVersion (toDecimal (x + 1) @ ''.0.0'')
        \<and> snd (release (Some ''minor'') (toDecimal x @ ''.'' @ toDecimal y @ ''.'' @ toDecimal z)) =
          NewVersion (toDecimal x @ ''.'' @ toDecimal (y + 1) @ ''.0'')
        \<and> snd (release (Some ''patch'') (toDecimal x @ ''.'' @ toDecimal y @ ''.'' @ toDecimal z)) =
          NewVersion (toDecimal x @ ''.'' @ toDecimal y @ ''.'' @ toDecimal (z + 1))"
    if h: "x \<le> MAX_SAFE_INTEGER \<and> y \<le> MAX_SAFE_INTEGER \<and> z \<le> MAX_SAFE_INTEGER"
  proof -
    from h have "list_all isDigit (toDecimal x) \<and> list_all isDigit (toDecimal y) \<and>
        list_all isDigit (toDecimal z) \<and>
        decimalValue (toDecimal x) \<le> MAX_SAFE_INTEGER \<and>
        decimalValue (toDecimal y) \<le> MAX_SAFE_INTEGER \<and>
        decimalValue (toDecimal z) \<le> MAX_SAFE_INTEGER"
      by (simp add: toDecimal_digits decimalValue_toDecimal)
    from digits [OF this] show ?thesis
      by (simp only: decimalValue_toDecimal)
  qed
  from reject dflt digits canonical show ?thesis by blast
qed

theorem release_version_bump_witness:
  "release (Some ''beta'') ''2.3.4'' =
     ([ConsoleError ''Usage: node scripts/release.mjs [patch|minor|major]''], Exited 1)
   \<and> snd (release (Some ''major'') ''02.3.004'') = NewVersion ''3.0.0''
   \<and> snd (release (Some ''minor'') ''02.3.004'') = NewVersion ''2.4.0''
   \<and> snd (release (Some ''patch'') ''02.3.004'') = NewVersion ''2.3.5''
   \<and> snd (release (Some ''patch'') (toDecimal 2 @ ''.'' @ toDecimal 3 @ ''.'' @ toDecimal 4)) =
       NewVersion ''2.3.5''"
proof -
  have h1: "''beta'' \<noteq> [] \<and> ''beta'' \<notin> set [''patch'', ''minor'', ''major'']"
    by simp
  have h2: "list_all isDigit ''02'' \<and> list_all isDigit ''3'' \<and> list_all isDigit ''004'' \<and>
       decimalValue ''02'' \<le> MAX_SAFE_INTEGER \<and> decimalValue ''3'' \<le> MAX_SAFE_INTEGER \<and>
       decimalValue ''004'' \<le> MAX_SAFE_INTEGER"
    by (simp add: isDigit_def decimalValue_examples MAX_SAFE_INTEGER_def)
  have h3: "(2::nat) \<le> MAX_SAFE_INTEGER \<and> (3::nat) \<le> MAX_SAFE_INTEGER \<and> (4::nat) \<le> MAX_SAFE_INTEGER"
    by (simp add: MAX_SAFE_INTEGER_def)
  note t = release_version_bump [where a = "''beta''" and version = "''2.3.4''"
      and sa = "''02''" and sb = "''3''" and sc = "''004''" and x = 2 and y = 3 and z = 4]
  from t h1 have r: "release (Some ''beta'') ''2.3.4'' =
     ([ConsoleError ''Usage: node scripts/release.mjs [patch|minor|major]''], Exited 1)"
    by blast
  from t h2 have d: "snd (release (Some ''major'') (''02'' @ ''.'' @ ''3'' @ ''.'' @ ''004'')) =
          NewVersion (toDecimal (decimalValue ''02'' + 1) @ ''.0.0'')"
    "snd (release (Some ''minor'') (''02'' @ ''.'' @ ''3'' @ ''.'' @ ''004'')) =
          NewVersion (toDecimal (decimalValue ''02'') @ ''.'' @ toDecimal (decimalValue ''3'' + 1) @ ''.0'')"
    "snd (release (Some ''patch'') (''02'' @ ''.'' @ ''3'' @ ''.'' @ ''004'')) =
          NewVersion (toDecimal (decimalValue ''02'') @ ''.'' @ toDecimal (decimalValue ''3'') @ ''.'' @
                      toDecimal (decimalValue ''004'' + 1))"
    by blast+
  from t h3 have c: "snd (release (Some ''patch'') (toDecimal 2 @ ''.'' @ toDecimal 3 @ ''.'' @ toDecimal 4)) =
          NewVersion (toDecimal 2 @ ''.'' @ toDecimal 3 @ ''.'' @ toDecimal (4 + 1))"
    by blast
  from r d c show ?thesis
    by (simp add: decimalValue_examples toDecimal_examples)
qed

text \<open>
  The claim as stated fails in two places. The empty argument, as in
  \<open>node scripts/release.mjs ""\<close>, is a bump type other than \<open>patch\<close>, \<open>minor\<close>, \<open>major\<close>,
  and the script reads the manifest and bumps the patch number instead of exiting with
  code 1. And at the version \<open>9007199254740992.0.0\<close> the bump \<open>major\<close> leaves the
  version as it is, because \<open>9007199254740992 + 1\<close> is rounded back to
  \<open>9007199254740992\<close>.
\<close>

theorem release_claim_counterexample:
  "[] \<notin> set [''patch'', ''minor'', ''major'']
   \<and> release (Some []) ''2.3.4'' =
       ([ReadFile ''manifest.json'', ConsoleLog ''Current version: 2.3.4''], NewVersion ''2.3.5'')
   \<and> snd (release (Some []) ''2.3.4'') \<noteq> Exited 1
   \<and> decimalValue ''9007199254740992'' + 1 = 9007199254740993
   \<and> snd (release (Some ''major'') ''9007199254740992.0.0'') = NewVersion ''9007199254740992.0.0''
   \<and> snd (release (Some ''major'') ''9007199254740992.0.0'') \<noteq> NewVersion ''9007199254740993.0.0''"
  by (simp add: release_examples decimalValue_examples)

end
